theory Spec2Isabelle
  imports Main "HOL-Library.Sublist" "HOL-Library.Multiset"
begin

section \<open>Strings\<close>

text \<open>
  Lines, identifiers and timestamps are Python \<open>str\<close> values, modelled as \<^typ>\<open>string\<close>.
  \<open>str.upper\<close> is modelled on the ASCII letters; every other character is left as it is.
\<close>

definition upper_char :: "char \<Rightarrow> char" where
  "upper_char c =
     (case map_of (zip ''abcdefghijklmnopqrstuvwxyz'' ''ABCDEFGHIJKLMNOPQRSTUVWXYZ'') c of
        Some u \<Rightarrow> u
      | None \<Rightarrow> c)"

definition upper :: "string \<Rightarrow> string" where
  "upper s = map upper_char s"

text \<open>\<open>s.rstrip("\n")\<close>: every trailing line feed is removed.\<close>

definition rstrip_nl :: "string \<Rightarrow> string" where
  "rstrip_nl s = rev (dropWhile (\<lambda>c. c = CHR 0x0A) (rev s))"

text \<open>\<open>k in s\<close> on strings: \<open>k\<close> occurs in \<open>s\<close> as a contiguous substring.\<close>

fun starts_with :: "string \<Rightarrow> string \<Rightarrow> bool" where
  "starts_with s [] = True"
| "starts_with [] (k # ks) = False"
| "starts_with (c # cs) (k # ks) = (c = k \<and> starts_with cs ks)"

fun contains :: "string \<Rightarrow> string \<Rightarrow> bool" where
  "contains [] k = (k = [])"
| "contains (c # cs) k = (starts_with (c # cs) k \<or> contains cs k)"

section \<open>The classifier\<close>

text \<open>
  The dictionary built by \<open>parse_log_line\<close>. The identifier (\<open>uuid.uuid4()\<close>) and the
  clock reading (\<open>now_iso()\<close>) come from the environment and are parameters of the model.
\<close>

record log_entry =
  entry_event_id :: string
  entry_timestamp :: string
  entry_message :: string
  entry_severity :: string

definition levels :: "string list" where
  "levels = [''CRITICAL'', ''FATAL'', ''ERROR'', ''WARNING'', ''WARN'']"

text \<open>The \<open>for level in [...]\<close> loop with its \<open>break\<close>; the third argument is the
  value \<open>severity\<close> holds when the loop is entered.\<close>

fun scan_levels :: "string \<Rightarrow> string list \<Rightarrow> string \<Rightarrow> string" where
  "scan_levels up [] severity = severity"
| "scan_levels up (level # rest) severity =
     (if contains up level then level else scan_levels up rest severity)"

definition parse_log_line :: "string \<Rightarrow> string \<Rightarrow> string \<Rightarrow> log_entry option" where
  "parse_log_line uuid4 now line0 =
     (let line = rstrip_nl line0 in
      if line = [] then None
      else
        let severity = scan_levels (upper line) levels ''INFO'' in
        Some \<lparr>entry_event_id = uuid4, entry_timestamp = now,
              entry_message = line, entry_severity = severity\<rparr>)"


section \<open>The SQLite outbox\<close>

text \<open>
  One row of table \<open>outbox\<close>. Column \<open>id\<close> is \<open>row_id\<close>; \<open>sent\<close> is an INTEGER column
  that the program writes as 0 and 1 and tests with \<open>sent = 0\<close>.
\<close>

record outbox_row =
  row_id :: nat
  event_id :: string
  timestamp :: string
  message :: string
  severity :: string
  sent :: int

text \<open>
  A connection's view of the database: the table and the AUTOINCREMENT counter
  (\<open>sqlite_sequence\<close>). Statements are assumed to run without I/O or resource errors;
  the only failure of \<open>INSERT\<close> that is modelled is the UNIQUE constraint on
  \<open>event_id\<close>, which is the one \<open>persist_log\<close> handles.
\<close>

record outbox =
  table :: "outbox_row list"
  seq :: nat

definition init_sqlite :: outbox where
  "init_sqlite = \<lparr>table = [], seq = 0\<rparr>"

text \<open>What the program prints, one constructor per \<open>print\<close> statement.\<close>

datatype mongo_error = BulkWriteError | ConnectionFailure | OtherError

datatype console =
    Persisted string string
  | DuplicateSkipped string
  | SentBatch nat
  | SentEvent string string
  | FailedToConfirm nat
  | UnexpectedSendError mongo_error

definition next_row_id :: "outbox \<Rightarrow> nat" where
  "next_row_id conn = Suc (fold max (map row_id (table conn)) (seq conn))"

definition persist_log :: "outbox \<Rightarrow> log_entry \<Rightarrow> outbox \<times> console list" where
  "persist_log conn log_entry =
     (if entry_event_id log_entry \<in> set (map event_id (table conn))
      then (conn, [DuplicateSkipped (entry_event_id log_entry)])
      else
        (conn\<lparr>table := table conn @
                 [\<lparr>row_id = next_row_id conn,
                   event_id = entry_event_id log_entry,
                   timestamp = entry_timestamp log_entry,
                   message = entry_message log_entry,
                   severity = entry_severity log_entry,
                   sent = 0\<rparr>],
               seq := next_row_id conn\<rparr>,
         [Persisted (entry_event_id log_entry) (entry_message log_entry)]))"

text \<open>
  \<open>LIMIT n\<close>: a negative \<open>n\<close> puts no bound on the number of rows. The limit is
  an integer that SQLite can hold; a Python \<open>int\<close> beyond 64 bits is refused when it is
  bound to the statement, which is outside the model.
\<close>

definition sql_limit :: "int \<Rightarrow> 'a list \<Rightarrow> 'a list" where
  "sql_limit n xs = (if n < 0 then xs else take (nat n) xs)"

definition unsent_rows :: "outbox \<Rightarrow> outbox_row list" where
  "unsent_rows conn = sort_key row_id (filter (\<lambda>r. sent r = 0) (table conn))"

definition selected_rows :: "outbox \<Rightarrow> int \<Rightarrow> outbox_row list" where
  "selected_rows conn limit = sql_limit limit (unsent_rows conn)"

definition columns :: "outbox_row \<Rightarrow> string \<times> string \<times> string \<times> string" where
  "columns r = (event_id r, timestamp r, message r, severity r)"

definition fetch_unsent :: "outbox \<Rightarrow> int \<Rightarrow> (string \<times> string \<times> string \<times> string) list" where
  "fetch_unsent conn limit = map columns (selected_rows conn limit)"

definition mark_sent :: "outbox \<Rightarrow> string list \<Rightarrow> outbox" where
  "mark_sent conn event_ids =
     (if event_ids = [] then conn
      else conn\<lparr>table := map (\<lambda>r. if event_id r \<in> set event_ids then r\<lparr>sent := 1\<rparr> else r)
                             (table conn)\<rparr>)"

section \<open>Delivery to the remote collection\<close>

record doc =
  doc_event_id :: string
  doc_timestamp :: string
  doc_message :: string
  doc_severity :: string
  captured_at :: string

text \<open>
  The collection handle. The driver and the server are outside the program, so the two
  calls the program makes are fields of the handle: each takes the state of the remote
  side and returns either the exception it raises or its result, and the next state.
  \<open>find_event_ids ids\<close> is \<open>find({"event_id": {"$in": ids}}, {"event_id": 1})\<close>, read
  to the end, as the list of the \<open>event_id\<close> values of the documents found.
\<close>

record 'r coll =
  insert_many :: "doc list \<Rightarrow> 'r \<Rightarrow> (mongo_error + unit) \<times> 'r"
  find_event_ids :: "string list \<Rightarrow> 'r \<Rightarrow> (mongo_error + string list) \<times> 'r"

definition send_batch_to_mongo ::
  "'r coll \<Rightarrow> doc list \<Rightarrow> 'r \<Rightarrow> (mongo_error + string list \<times> string list) \<times> 'r" where
  "send_batch_to_mongo c docs remote =
     (if docs = [] then (Inr ([], []), remote)
      else
        case insert_many c docs remote of
          (Inr u, remote1) \<Rightarrow> (Inr (map doc_event_id docs, []), remote1)
        | (Inl BulkWriteError, remote1) \<Rightarrow>
            (let event_ids = map doc_event_id docs in
             case find_event_ids c event_ids remote1 of
               (Inl e, remote2) \<Rightarrow> (Inl e, remote2)
             | (Inr found_cursor, remote2) \<Rightarrow>
                 (let found = set found_cursor in
                  (Inr (filter (\<lambda>eid. eid \<in> found) event_ids,
                        filter (\<lambda>eid. eid \<notin> found) event_ids), remote2)))
        | (Inl e, remote1) \<Rightarrow> (Inl e, remote1))"

section \<open>The flush\<close>

text \<open>The loop that builds the documents; \<open>now i\<close> is the clock reading taken for the
  \<open>i\<close>-th row of the batch.\<close>

fun build_docs :: "(nat \<Rightarrow> string) \<Rightarrow> nat \<Rightarrow> (string \<times> string \<times> string \<times> string) list \<Rightarrow> doc list" where
  "build_docs now i [] = []"
| "build_docs now i ((eid, ts, msg, sev) # rows) =
     \<lparr>doc_event_id = eid, doc_timestamp = ts, doc_message = msg, doc_severity = sev,
      captured_at = now i\<rparr> # build_docs now (Suc i) rows"

definition message_of :: "doc list \<Rightarrow> string \<Rightarrow> string" where
  "message_of docs eid =
     (case find (\<lambda>d. doc_event_id d = eid) docs of Some d \<Rightarrow> doc_message d | None \<Rightarrow> [])"

definition flush_outbox ::
  "'r coll \<Rightarrow> int \<Rightarrow> (nat \<Rightarrow> string) \<Rightarrow> outbox \<Rightarrow> 'r
     \<Rightarrow> (mongo_error + unit) \<times> outbox \<times> 'r \<times> console list" where
  "flush_outbox c batch_size now conn remote =
     (let rows = fetch_unsent conn batch_size in
      if rows = [] then (Inr (), conn, remote, [])
      else
        let docs = build_docs now 0 rows in
        case send_batch_to_mongo c docs remote of
          (Inl e, remote1) \<Rightarrow> (Inl e, conn, remote1, [UnexpectedSendError e])
        | (Inr (succeeded, failed), remote1) \<Rightarrow>
            (Inr (),
             (if succeeded \<noteq> [] then mark_sent conn succeeded else conn),
             remote1,
             (if succeeded \<noteq> []
              then SentBatch (length succeeded) #
                   map (\<lambda>eid. SentEvent eid (message_of docs eid)) succeeded
              else []) @
             (if failed \<noteq> [] then [FailedToConfirm (length failed)] else [])))"

section \<open>The store operations as steps\<close>

text \<open>
  The four operations on a connection, with everything each one is given; \<open>exec\<close> is
  the table an operation leaves behind, and \<open>run\<close> starts from the freshly created
  table. \<open>fetch_unsent\<close> is a \<open>SELECT\<close>: its result goes to the caller and the
  table is as before.
\<close>

datatype 'r store_op =
    PersistLog log_entry
  | FetchUnsent int
  | MarkSent "string list"
  | FlushOutbox "'r coll" int "nat \<Rightarrow> string" 'r

fun exec :: "'r store_op \<Rightarrow> outbox \<Rightarrow> outbox" where
  "exec (PersistLog e) conn = fst (persist_log conn e)"
| "exec (FetchUnsent limit) conn = (case fetch_unsent conn limit of rows \<Rightarrow> conn)"
| "exec (MarkSent event_ids) conn = mark_sent conn event_ids"
| "exec (FlushOutbox c batch_size now remote) conn =
     fst (snd (flush_outbox c batch_size now conn remote))"

definition run :: "'r store_op list \<Rightarrow> outbox" where
  "run ops = fold exec ops init_sqlite"

definition unique_event_ids :: "outbox \<Rightarrow> bool" where
  "unique_event_ids conn = distinct (map event_id (table conn))"

text \<open>Every row of the earlier table is still there, at its place and under its
  identifiers, and a row that was sent is still sent.\<close>

definition sent_kept :: "outbox \<Rightarrow> outbox \<Rightarrow> bool" where
  "sent_kept conn conn' =
     (length (table conn) \<le> length (table conn') \<and>
      (\<forall>(r, r') \<in> set (zip (table conn) (table conn')).
         row_id r' = row_id r \<and> event_id r' = event_id r \<and> (sent r \<noteq> 0 \<longrightarrow> sent r' \<noteq> 0)))"

section \<open>A remote collection with the unique index\<close>

text \<open>
  The environment the scenarios run against: a collection with the unique index on
  \<open>event_id\<close> that \<open>init_mongo\<close> asks for, behind a connection that is up or down,
  on a server that may validate documents. An unordered \<open>insert_many\<close> tries every
  document, stores those that pass the validator and whose \<open>event_id\<close> is not stored
  yet, and raises \<open>BulkWriteError\<close> when it rejected any; with the connection down
  every call raises and nothing is stored.
\<close>

record mongo =
  documents :: "doc list"
  reachable :: bool
  validator :: "doc \<Rightarrow> bool"

fun insert_unordered :: "(doc \<Rightarrow> bool) \<Rightarrow> doc list \<Rightarrow> doc list \<Rightarrow> doc list \<times> nat" where
  "insert_unordered ok [] stored = (stored, 0)"
| "insert_unordered ok (d # ds) stored =
     (if \<not> ok d \<or> doc_event_id d \<in> set (map doc_event_id stored)
      then (case insert_unordered ok ds stored of (stored', n) \<Rightarrow> (stored', Suc n))
      else insert_unordered ok ds (stored @ [d]))"

definition mongo_insert_many :: "doc list \<Rightarrow> mongo \<Rightarrow> (mongo_error + unit) \<times> mongo" where
  "mongo_insert_many docs m =
     (if \<not> reachable m then (Inl ConnectionFailure, m)
      else case insert_unordered (validator m) docs (documents m) of
             (stored', n) \<Rightarrow>
               (if n = 0 then Inr () else Inl BulkWriteError, m\<lparr>documents := stored'\<rparr>))"

definition mongo_find_event_ids ::
  "string list \<Rightarrow> mongo \<Rightarrow> (mongo_error + string list) \<times> mongo" where
  "mongo_find_event_ids ids m =
     (if \<not> reachable m then (Inl ConnectionFailure, m)
      else (Inr (filter (\<lambda>eid. eid \<in> set ids) (map doc_event_id (documents m))), m))"

definition mongo_coll :: "mongo coll" where
  "mongo_coll = \<lparr>insert_many = mongo_insert_many, find_event_ids = mongo_find_event_ids\<rparr>"

section \<open>Tailing the file\<close>

text \<open>
  An open text file: what the file holds now and the read position. \<open>readline\<close>
  returns the characters from the position up to and including the next line feed, or
  up to the end of the file when there is none; at the end of the file that is the
  empty string.
\<close>

record fileobj =
  content :: string
  pos :: nat

definition readline :: "fileobj \<Rightarrow> string \<times> fileobj" where
  "readline f =
     (let rest = drop (pos f) (content f);
          body = takeWhile (\<lambda>c. c \<noteq> CHR 0x0A) rest
      in if length body < length rest
         then (body @ [CHR 0x0A], f\<lparr>pos := pos f + length body + 1\<rparr>)
         else (body, f\<lparr>pos := pos f + length body\<rparr>))"

text \<open>The writer of the log appends to the file between two reads.\<close>

definition append_data :: "string \<Rightarrow> fileobj \<Rightarrow> fileobj" where
  "append_data s f = f\<lparr>content := content f @ s\<rparr>"

text \<open>One pass through the loop of \<open>follow\<close>: \<open>None\<close> is the branch that sleeps and
  tries again, \<open>Some line\<close> the \<open>yield\<close>.\<close>

definition follow_poll :: "fileobj \<Rightarrow> string option \<times> fileobj" where
  "follow_poll f =
     (case readline f of (line, f') \<Rightarrow> if line = [] then (None, f') else (Some line, f'))"

text \<open>The body of the loop of \<open>monitor_logs\<close> for one yielded line; an exception of
  the immediate flush is dropped.\<close>

definition monitor_line ::
  "'r coll \<Rightarrow> int \<Rightarrow> (nat \<Rightarrow> string) \<Rightarrow> string \<Rightarrow> string \<Rightarrow> string \<Rightarrow> outbox \<Rightarrow> 'r
     \<Rightarrow> outbox \<times> 'r \<times> console list" where
  "monitor_line c batch_size now uuid4 ts line conn remote =
     (case parse_log_line uuid4 ts line of
        None \<Rightarrow> (conn, remote, [])
      | Some entry \<Rightarrow>
          (case persist_log conn entry of
             (conn1, out1) \<Rightarrow>
               (case flush_outbox c batch_size now conn1 remote of
                  (res, conn2, remote2, out2) \<Rightarrow> (conn2, remote2, out1 @ out2))))"

section \<open>The minimal tail agent\<close>

text \<open>Its table \<open>outbox\<close> has no \<open>event_id\<close>; the messages it prints are left out.\<close>

record match_row =
  m_id :: nat
  m_timestamp :: string
  m_filename :: string
  m_line :: string
  m_sent :: int

record match_db =
  m_table :: "match_row list"
  m_seq :: nat

definition persist_match :: "string \<Rightarrow> string \<Rightarrow> string \<Rightarrow> match_db \<Rightarrow> match_db" where
  "persist_match utcnow filename line db =
     (let ts = utcnow @ ''Z'';
          snippet = take 4000 line;
          lastrowid = Suc (fold max (map m_id (m_table db)) (m_seq db))
      in db\<lparr>m_table := m_table db @
               [\<lparr>m_id = lastrowid, m_timestamp = ts, m_filename = filename,
                 m_line = snippet, m_sent = 0\<rparr>],
             m_seq := lastrowid\<rparr>)"

text \<open>
  The inner loop of \<open>tail_file\<close>: read lines up to the end of the file, persist those
  the pattern matches, return the position reached. \<open>pat\<close> is \<open>pat.search\<close> as a
  predicate; \<open>now n\<close> is the clock reading when \<open>n\<close> rows have been written.
\<close>

function tail_read ::
  "(string \<Rightarrow> bool) \<Rightarrow> (nat \<Rightarrow> string) \<Rightarrow> string \<Rightarrow> fileobj \<Rightarrow> match_db \<Rightarrow> nat \<times> match_db" where
  "tail_read pat now path f db =
     (case readline f of
        (line0, f') \<Rightarrow>
          if line0 = [] then (pos f', db)
          else
            let line = rstrip_nl line0 in
            tail_read pat now path f'
              (if pat line then persist_match (now (m_seq db)) path line db else db))"
  by pat_completeness auto
termination
  apply (relation "measure (\<lambda>(pat, now, path, f, db). length (content f) - pos f)")
   apply simp
  apply (simp add: readline_def Let_def split: if_splits)
  apply (rule ccontr)
  apply simp
  done

section \<open>The first match, in the words of the specification\<close>


section \<open>Example states\<close>

definition example_entry :: "string \<Rightarrow> log_entry" where
  "example_entry eid =
     \<lparr>entry_event_id = eid, entry_timestamp = ''2024-05-01T10:00:00'',
      entry_message = ''ERROR disk full'', entry_severity = ''ERROR''\<rparr>"

definition example_outbox :: outbox where
  "example_outbox =
     \<lparr>table =
        [\<lparr>row_id = 1, event_id = ''id-1'', timestamp = ''t1'', message = ''ERROR a'',
          severity = ''ERROR'', sent = 0\<rparr>,
         \<lparr>row_id = 2, event_id = ''id-2'', timestamp = ''t2'', message = ''b'',
          severity = ''INFO'', sent = 1\<rparr>,
         \<lparr>row_id = 3, event_id = ''id-3'', timestamp = ''t3'', message = ''WARN c'',
          severity = ''WARN'', sent = 0\<rparr>],
      seq = 3\<rparr>"

definition example_mongo :: mongo where
  "example_mongo = \<lparr>documents = [], reachable = True, validator = (\<lambda>d. True)\<rparr>"

definition example_ops :: "mongo store_op list" where
  "example_ops =
     [PersistLog (example_entry ''id-1''), PersistLog (example_entry ''id-2''),
      MarkSent [''id-1'']]"

definition example_flush :: "mongo store_op" where
  "example_flush = FlushOutbox mongo_coll 5 (\<lambda>i. ''2024-05-01T10:00:05'') example_mongo"

definition example_db :: match_db where
  "example_db = \<lparr>m_table = [], m_seq = 0\<rparr>"

text \<open>A log file whose writer has so far written the beginning of a line.\<close>

definition example_file :: fileobj where
  "example_file = \<lparr>content = ''ERROR disk fu'', pos = 0\<rparr>"

definition example_pattern :: "string \<Rightarrow> bool" where
  "example_pattern line = contains (upper line) ''ERROR''"

text \<open>A server that rejects documents of severity WARN and already holds \<open>id-1\<close>.\<close>

definition example_doc :: "string \<Rightarrow> string \<Rightarrow> doc" where
  "example_doc eid sev =
     \<lparr>doc_event_id = eid, doc_timestamp = ''2024-05-01T10:00:00'', doc_message = ''disk'',
      doc_severity = sev, captured_at = ''2024-05-01T10:00:05''\<rparr>"

definition example_mongo_strict :: mongo where
  "example_mongo_strict =
     \<lparr>documents = [example_doc ''id-1'' ''ERROR''], reachable = True,
      validator = (\<lambda>d. doc_severity d \<noteq> ''WARN'')\<rparr>"

definition example_docs :: "doc list" where
  "example_docs = [example_doc ''id-1'' ''ERROR'', example_doc ''id-2'' ''WARN'',
                   example_doc ''id-3'' ''INFO'']"

text \<open>A handle whose connection is lost between the bulk write and the query.\<close>

definition example_dropping_coll :: "mongo coll" where
  "example_dropping_coll =
     \<lparr>insert_many = mongo_insert_many,
      find_event_ids = (\<lambda>ids m. (Inl ConnectionFailure, m\<lparr>reachable := False\<rparr>))\<rparr>"

definition example_clock :: "nat \<Rightarrow> string" where
  "example_clock i = ''2024-05-01T10:00:05''"

text \<open>Twelve events appended to a new outbox, and the states after successive flushes
  with \<open>BATCH_SIZE = 5\<close> against the empty collection.\<close>

definition twelve_ids :: "string list" where
  "twelve_ids = [''e01'', ''e02'', ''e03'', ''e04'', ''e05'', ''e06'',
                 ''e07'', ''e08'', ''e09'', ''e10'', ''e11'', ''e12'']"

definition example_twelve :: outbox where
  "example_twelve =
     fold (\<lambda>eid conn. fst (persist_log conn (example_entry eid))) twelve_ids init_sqlite"

primrec example_flushes :: "nat \<Rightarrow> outbox \<times> mongo" where
  "example_flushes 0 = (example_twelve, example_mongo)"
| "example_flushes (Suc k) =
     (case example_flushes k of
        (conn, remote) \<Rightarrow>
          (case flush_outbox mongo_coll 5 example_clock conn remote of
             (res, conn', remote', out) \<Rightarrow> (conn', remote')))"

section \<open>Substring tests\<close>





section \<open>The classifier: severity\<close>


lemma scan_levels_mem: "scan_levels up ls d \<in> insert d (set ls)"
  by (induction ls) auto


lemma upper_char_nl: "upper_char c = CHR 0x0A \<longleftrightarrow> c = CHR 0x0A"
  by (auto simp: upper_char_def split: option.splits if_splits)










text \<open>
  C6, as the claim states it, fails: a line in which WARN occurs and WARNING does not
  gets the severity WARN, which is not one of CRITICAL, FATAL, ERROR, WARNING, INFO.
\<close>

theorem severity_enum_counterexample:
  "map_option entry_severity (parse_log_line ''u1'' ''t1'' ''WARN: disk low'') = Some ''WARN''
   \<and> ''WARN'' \<notin> {''CRITICAL'', ''FATAL'', ''ERROR'', ''WARNING'', ''INFO''}"
  by (simp add: parse_log_line_def rstrip_nl_def levels_def upper_def upper_char_def)

text \<open>
  C6, amended: for every input line for which \<open>parse_log_line\<close> produces an event, the
  event's severity is one of CRITICAL, FATAL, ERROR, WARNING, WARN, INFO.
\<close>

theorem parse_log_line_severity:
  assumes "parse_log_line uuid4 now line = Some e"
  shows "entry_severity e \<in> {''CRITICAL'', ''FATAL'', ''ERROR'', ''WARNING'', ''WARN'', ''INFO''}"
proof -
  have "scan_levels (upper (rstrip_nl line)) levels ''INFO'' \<in> insert ''INFO'' (set levels)"
    by (rule scan_levels_mem)
  with assms show ?thesis
    by (auto simp: parse_log_line_def Let_def levels_def split: if_splits)
qed

theorem parse_log_line_severity_witness:
  "parse_log_line ''u1'' ''t1'' ''WARN: disk low''
     = Some \<lparr>entry_event_id = ''u1'', entry_timestamp = ''t1'',
             entry_message = ''WARN: disk low'', entry_severity = ''WARN''\<rparr>
   \<and> ''WARN'' \<in> {''CRITICAL'', ''FATAL'', ''ERROR'', ''WARNING'', ''WARN'', ''INFO''}"
proof -
  have h: "parse_log_line ''u1'' ''t1'' ''WARN: disk low''
     = Some \<lparr>entry_event_id = ''u1'', entry_timestamp = ''t1'',
             entry_message = ''WARN: disk low'', entry_severity = ''WARN''\<rparr>"
    by (simp add: parse_log_line_def rstrip_nl_def levels_def upper_def upper_char_def)
  from parse_log_line_severity [OF h] h show ?thesis by simp
qed

section \<open>The outbox: appending\<close>

lemma fold_max_ge: "a \<le> fold max xs (a::nat)"
  by (induction xs arbitrary: a) (auto intro: order_trans [OF max.cobounded2])

lemma fold_max_ge_elem: "x \<in> set xs \<Longrightarrow> x \<le> fold max xs (a::nat)"
proof (induction xs arbitrary: a)
  case Nil
  then show ?case by simp
next
  case (Cons y ys)
  show ?case
  proof (cases "x = y")
    case True
    have "max y a \<le> fold max ys (max y a)" by (rule fold_max_ge)
    with True show ?thesis by simp
  next
    case False
    with Cons show ?thesis by simp
  qed
qed

lemma next_row_id_fresh: "next_row_id conn \<notin> set (map row_id (table conn))"
proof
  assume "next_row_id conn \<in> set (map row_id (table conn))"
  then have "next_row_id conn \<le> fold max (map row_id (table conn)) (seq conn)"
    by (rule fold_max_ge_elem)
  then show False by (simp add: next_row_id_def)
qed

lemma count_key_distinct:
  "distinct (map f xs) \<Longrightarrow>
     length (filter (\<lambda>r. f r = k) xs) = (if k \<in> set (map f xs) then 1 else 0)"
  by (induction xs) (auto simp: image_iff)

lemma example_outbox_unique: "unique_event_ids example_outbox"
  by (simp add: unique_event_ids_def example_outbox_def)

text \<open>
  C2: on a table whose \<open>event_id\<close> values are unique (the UNIQUE constraint of the
  column), \<open>persist_log\<close> of an event whose \<open>event_id\<close> is present returns normally,
  prints the duplicate message and leaves the whole store as it was, with exactly one
  record of that \<open>event_id\<close>; of an event whose \<open>event_id\<close> is not present it appends
  exactly one row, with the event's fields, a fresh \<open>id\<close> and \<open>sent = 0\<close>, after which
  exactly one record has that \<open>event_id\<close>.
\<close>

theorem persist_log_idempotent:
  assumes "unique_event_ids conn"
  shows "(entry_event_id e \<in> set (map event_id (table conn)) \<longrightarrow>
            persist_log conn e = (conn, [DuplicateSkipped (entry_event_id e)])
            \<and> length (filter (\<lambda>r. event_id r = entry_event_id e) (table conn)) = 1)
       \<and> (entry_event_id e \<notin> set (map event_id (table conn)) \<longrightarrow>
            (\<exists>row. persist_log conn e =
                     (conn\<lparr>table := table conn @ [row], seq := row_id row\<rparr>,
                      [Persisted (entry_event_id e) (entry_message e)])
                 \<and> event_id row = entry_event_id e
                 \<and> timestamp row = entry_timestamp e
                 \<and> message row = entry_message e
                 \<and> severity row = entry_severity e
                 \<and> sent row = 0
                 \<and> row_id row \<notin> set (map row_id (table conn))
                 \<and> length (filter (\<lambda>r. event_id r = entry_event_id e)
                             (table conn @ [row])) = 1
                 \<and> unique_event_ids (conn\<lparr>table := table conn @ [row], seq := row_id row\<rparr>)))"
proof (intro conjI impI)
  assume dup: "entry_event_id e \<in> set (map event_id (table conn))"
  show "persist_log conn e = (conn, [DuplicateSkipped (entry_event_id e)])"
    using dup by (simp add: persist_log_def)
  show "length (filter (\<lambda>r. event_id r = entry_event_id e) (table conn)) = 1"
    using assms dup by (simp add: unique_event_ids_def count_key_distinct)
next
  assume new: "entry_event_id e \<notin> set (map event_id (table conn))"
  let ?row = "\<lparr>row_id = next_row_id conn, event_id = entry_event_id e,
               timestamp = entry_timestamp e, message = entry_message e,
               severity = entry_severity e, sent = 0\<rparr>"
  have u: "distinct (map event_id (table conn @ [?row]))"
    using assms new by (simp add: unique_event_ids_def)
  have "length (filter (\<lambda>r. event_id r = entry_event_id e) (table conn @ [?row])) = 1"
    using count_key_distinct [OF u, of "entry_event_id e"] by simp
  moreover have "persist_log conn e =
      (conn\<lparr>table := table conn @ [?row], seq := row_id ?row\<rparr>,
       [Persisted (entry_event_id e) (entry_message e)])"
    using new by (simp add: persist_log_def)
  moreover have "row_id ?row \<notin> set (map row_id (table conn))"
    using next_row_id_fresh [of conn] by simp
  moreover have "unique_event_ids (conn\<lparr>table := table conn @ [?row], seq := row_id ?row\<rparr>)"
    using u by (simp add: unique_event_ids_def)
  ultimately show "\<exists>row. persist_log conn e =
                     (conn\<lparr>table := table conn @ [row], seq := row_id row\<rparr>,
                      [Persisted (entry_event_id e) (entry_message e)])
                 \<and> event_id row = entry_event_id e
                 \<and> timestamp row = entry_timestamp e
                 \<and> message row = entry_message e
                 \<and> severity row = entry_severity e
                 \<and> sent row = 0
                 \<and> row_id row \<notin> set (map row_id (table conn))
                 \<and> length (filter (\<lambda>r. event_id r = entry_event_id e)
                             (table conn @ [row])) = 1
                 \<and> unique_event_ids (conn\<lparr>table := table conn @ [row], seq := row_id row\<rparr>)"
    by (intro exI [of _ ?row]) simp
qed

theorem persist_log_idempotent_witness:
  "unique_event_ids example_outbox
   \<and> entry_event_id (example_entry ''id-1'') \<in> set (map event_id (table example_outbox))
   \<and> persist_log example_outbox (example_entry ''id-1'')
       = (example_outbox, [DuplicateSkipped ''id-1''])
   \<and> length (filter (\<lambda>r. event_id r = ''id-1'') (table example_outbox)) = 1
   \<and> entry_event_id (example_entry ''id-4'') \<notin> set (map event_id (table example_outbox))
   \<and> length (filter (\<lambda>r. event_id r = ''id-4'')
               (table (fst (persist_log example_outbox (example_entry ''id-4''))))) = 1
   \<and> map sent (table (fst (persist_log example_outbox (example_entry ''id-4''))))
       = [0, 1, 0, 0]"
proof -
  note t = persist_log_idempotent [OF example_outbox_unique]
  have in1: "entry_event_id (example_entry ''id-1'') \<in> set (map event_id (table example_outbox))"
    by (simp add: example_entry_def example_outbox_def)
  have out4: "entry_event_id (example_entry ''id-4'') \<notin> set (map event_id (table example_outbox))"
    by (simp add: example_entry_def example_outbox_def)
  have id1: "entry_event_id (example_entry ''id-1'') = ''id-1''"
    and id4: "entry_event_id (example_entry ''id-4'') = ''id-4''"
    by (simp_all add: example_entry_def)
  from t [of "example_entry ''id-1''"] in1
  have a: "persist_log example_outbox (example_entry ''id-1'')
             = (example_outbox, [DuplicateSkipped ''id-1''])"
    and b: "length (filter (\<lambda>r. event_id r = ''id-1'') (table example_outbox)) = 1"
    by (simp_all only: id1 simp_thms)
  from t [of "example_entry ''id-4''"] out4
  obtain row where r: "persist_log example_outbox (example_entry ''id-4'') =
        (example_outbox\<lparr>table := table example_outbox @ [row], seq := row_id row\<rparr>,
         [Persisted ''id-4'' (entry_message (example_entry ''id-4''))])"
      and s: "sent row = 0"
      and c: "length (filter (\<lambda>r. event_id r = ''id-4'') (table example_outbox @ [row])) = 1"
    unfolding id4 by blast
  have "map sent (table (fst (persist_log example_outbox (example_entry ''id-4''))))
          = [0, 1, 0, 0]"
    using s by (simp add: r) (simp add: example_outbox_def)
  moreover have "length (filter (\<lambda>r. event_id r = ''id-4'')
               (table (fst (persist_log example_outbox (example_entry ''id-4''))))) = 1"
    using c by (simp add: r)
  ultimately show ?thesis
    using example_outbox_unique in1 out4 a b by simp
qed

section \<open>The outbox: invariants\<close>

lemma sent_kept_nth:
  "sent_kept conn conn' \<longleftrightarrow>
     length (table conn) \<le> length (table conn') \<and>
     (\<forall>i < length (table conn).
        row_id (table conn' ! i) = row_id (table conn ! i) \<and>
        event_id (table conn' ! i) = event_id (table conn ! i) \<and>
        (sent (table conn ! i) \<noteq> 0 \<longrightarrow> sent (table conn' ! i) \<noteq> 0))"
  unfolding sent_kept_def
  by (auto simp: in_set_zip)

lemma sent_kept_refl: "sent_kept conn conn"
  by (simp add: sent_kept_nth)

lemma sent_kept_trans: "sent_kept a b \<Longrightarrow> sent_kept b c \<Longrightarrow> sent_kept a c"
  by (fastforce simp: sent_kept_nth)

lemma mark_sent_event_ids:
  "map event_id (table (mark_sent conn ids)) = map event_id (table conn)"
  by (simp add: mark_sent_def)

lemma mark_sent_unique: "unique_event_ids (mark_sent conn ids) = unique_event_ids conn"
  by (simp add: unique_event_ids_def mark_sent_event_ids)

lemma mark_sent_kept: "sent_kept conn (mark_sent conn ids)"
  by (simp add: sent_kept_nth mark_sent_def)

lemma persist_log_unique:
  "unique_event_ids conn \<Longrightarrow> unique_event_ids (fst (persist_log conn e))"
  by (simp add: persist_log_def unique_event_ids_def)

lemma persist_log_kept: "sent_kept conn (fst (persist_log conn e))"
  by (simp add: sent_kept_nth persist_log_def nth_append)

text \<open>Whatever the remote side does, a flush changes the table by one \<open>mark_sent\<close>
  or not at all.\<close>

lemma flush_outbox_store:
  "\<exists>ids. fst (snd (flush_outbox c batch_size now conn remote)) = mark_sent conn ids"
proof (cases "fst (snd (flush_outbox c batch_size now conn remote)) = conn")
  case True
  then have "fst (snd (flush_outbox c batch_size now conn remote)) = mark_sent conn []"
    by (simp add: mark_sent_def)
  then show ?thesis ..
next
  case False
  then show ?thesis
    by (auto simp: flush_outbox_def Let_def split: if_splits prod.splits sum.splits)
qed

lemma exec_unique: "unique_event_ids conn \<Longrightarrow> unique_event_ids (exec op conn)"
proof (cases op)
  case (FlushOutbox c b n r)
  obtain ids where "fst (snd (flush_outbox c b n conn r)) = mark_sent conn ids"
    using flush_outbox_store [of c b n conn r] by (elim exE)
  moreover assume "unique_event_ids conn"
  ultimately show ?thesis using FlushOutbox by (simp add: mark_sent_unique)
qed (simp_all add: persist_log_unique mark_sent_unique)

lemma exec_kept: "sent_kept conn (exec op conn)"
proof (cases op)
  case (FlushOutbox c b n r)
  obtain ids where "fst (snd (flush_outbox c b n conn r)) = mark_sent conn ids"
    using flush_outbox_store [of c b n conn r] by (elim exE)
  then show ?thesis using FlushOutbox by (simp add: mark_sent_kept)
qed (simp_all add: persist_log_kept mark_sent_kept sent_kept_refl)

lemma fold_exec_unique: "unique_event_ids conn \<Longrightarrow> unique_event_ids (fold exec ops conn)"
  by (induction ops arbitrary: conn) (simp_all add: exec_unique)

lemma fold_exec_kept: "sent_kept conn (fold exec ops conn)"
proof (induction ops arbitrary: conn)
  case Nil
  show ?case by (simp add: sent_kept_refl)
next
  case (Cons op ops)
  have "sent_kept conn (exec op conn)" by (rule exec_kept)
  moreover have "sent_kept (exec op conn) (fold exec ops (exec op conn))" by (rule Cons.IH)
  ultimately show ?case by (auto intro: sent_kept_trans)
qed

lemma run_unique: "unique_event_ids (run ops)"
  unfolding run_def by (rule fold_exec_unique) (simp add: unique_event_ids_def init_sqlite_def)

text \<open>
  C3: in every store state reached from the freshly created table by any sequence of
  \<open>persist_log\<close>, \<open>fetch_unsent\<close>, \<open>mark_sent\<close> and \<open>flush_outbox\<close> calls the
  \<open>event_id\<close> values are unique; every further operation keeps them unique and leaves
  every record that was sent still sent; and so does every further sequence of
  operations, so no \<open>sent\<close> flag ever goes back from true to false.
\<close>

theorem store_invariants:
  "unique_event_ids (run ops)
   \<and> unique_event_ids (exec op (run ops))
   \<and> sent_kept (run ops) (exec op (run ops))
   \<and> sent_kept (run ops) (run (ops @ later))"
proof (intro conjI)
  show u: "unique_event_ids (run ops)"
    by (rule run_unique)
  show "unique_event_ids (exec op (run ops))"
    using u by (rule exec_unique)
  show "sent_kept (run ops) (exec op (run ops))"
    by (rule exec_kept)
  show "sent_kept (run ops) (run (ops @ later))"
    by (simp add: run_def fold_exec_kept)
qed

lemmas store_defs = run_def init_sqlite_def persist_log_def next_row_id_def mark_sent_def
  example_entry_def

lemmas flush_defs = flush_outbox_def fetch_unsent_def selected_rows_def sql_limit_def
  unsent_rows_def columns_def send_batch_to_mongo_def message_of_def Let_def

lemmas mongo_defs = mongo_coll_def mongo_insert_many_def mongo_find_event_ids_def
  example_mongo_def

lemma example_ops_sent: "map sent (table (run example_ops)) = [1, 0]"
  by (simp add: example_ops_def store_defs)

lemma example_flush_sent: "map sent (table (exec example_flush (run example_ops))) = [1, 1]"
  by (simp add: example_ops_def example_flush_def store_defs flush_defs mongo_defs)

theorem store_invariants_witness:
  "unique_event_ids (run example_ops)
   \<and> unique_event_ids (exec example_flush (run example_ops))
   \<and> sent_kept (run example_ops) (exec example_flush (run example_ops))
   \<and> sent_kept (run example_ops) (run (example_ops @ [example_flush]))
   \<and> map sent (table (run example_ops)) = [1, 0]
   \<and> map sent (table (exec example_flush (run example_ops))) = [1, 1]"
  using store_invariants [of example_ops example_flush "[example_flush]"]
    example_ops_sent example_flush_sent
  by simp

section \<open>The outbox: fetching the unsent rows\<close>








section \<open>The tailers: a fragment at the end of the file\<close>

lemma rstrip_nl_id: "CHR 0x0A \<notin> set s \<Longrightarrow> rstrip_nl s = s"
proof -
  assume a: "CHR 0x0A \<notin> set s"
  have "dropWhile (\<lambda>c. c = CHR 0x0A) (rev s) = rev s"
    using a by (cases "rev s") (auto simp: rev_eq_Cons_iff)
  then show ?thesis by (simp add: rstrip_nl_def)
qed

lemma readline_fragment:
  assumes "pos f < length (content f)" and "CHR 0x0A \<notin> set (drop (pos f) (content f))"
  shows "readline f = (drop (pos f) (content f), f\<lparr>pos := length (content f)\<rparr>)"
proof -
  have h: "takeWhile (\<lambda>c. c \<noteq> CHR 0x0A) (drop (pos f) (content f))
             = drop (pos f) (content f)"
    using assms(2) by (auto simp: takeWhile_eq_all_conv)
  show ?thesis
    unfolding readline_def Let_def h using assms(1) by simp
qed

lemma readline_eof: "length (content f) \<le> pos f \<Longrightarrow> readline f = ([], f)"
  by (simp add: readline_def)

lemma mark_sent_rows:
  "r \<in> set (table conn) \<Longrightarrow>
     \<exists>r' \<in> set (table (mark_sent conn ids)). event_id r' = event_id r \<and> message r' = message r"
proof (cases "ids = [] \<or> event_id r \<notin> set ids")
  case True
  moreover assume "r \<in> set (table conn)"
  ultimately have "r \<in> set (table (mark_sent conn ids))"
    by (auto simp: mark_sent_def)
  then show ?thesis by blast
next
  case False
  moreover assume "r \<in> set (table conn)"
  ultimately have "r\<lparr>sent := 1\<rparr> \<in> set (table (mark_sent conn ids))"
    by (auto simp: mark_sent_def)
  then show ?thesis by (intro bexI [of _ "r\<lparr>sent := 1\<rparr>"]) simp_all
qed

text \<open>
  C9, as the claim states it, fails: neither tailer has a buffer. With the file holding
  the unterminated fragment \<open>ERROR disk fu\<close>, \<open>follow\<close> yields the fragment as a line
  at once and \<open>monitor_logs\<close> classifies and persists it; when the writer then
  completes the line, the rest is yielded as a line of its own. The inner loop of
  \<open>tail_file\<close> persists the same fragment.
\<close>

theorem partial_line_counterexample:
  "CHR 0x0A \<notin> set ''ERROR disk fu''
   \<and> follow_poll example_file = (Some ''ERROR disk fu'', example_file\<lparr>pos := 13\<rparr>)
   \<and> map message
         (table (fst (monitor_line mongo_coll 5 (\<lambda>i. ''2024-05-01T10:00:05'') ''id-1''
                        ''2024-05-01T10:00:00'' ''ERROR disk fu'' init_sqlite example_mongo)))
       = [''ERROR disk fu'']
   \<and> fst (follow_poll (append_data (''ll'' @ [CHR 0x0A]) (example_file\<lparr>pos := 13\<rparr>)))
       = Some (''ll'' @ [CHR 0x0A])
   \<and> map m_line
         (m_table (snd (tail_read example_pattern (\<lambda>n. ''2024-05-01T10:00:00'')
                          ''/tmp/test.log'' example_file example_db)))
       = [''ERROR disk fu'']"
proof (intro conjI)
  show "CHR 0x0A \<notin> set ''ERROR disk fu''"
    by simp
  show "follow_poll example_file = (Some ''ERROR disk fu'', example_file\<lparr>pos := 13\<rparr>)"
    by (simp add: example_file_def follow_poll_def readline_def Let_def)
  show "map message
         (table (fst (monitor_line mongo_coll 5 (\<lambda>i. ''2024-05-01T10:00:05'') ''id-1''
                        ''2024-05-01T10:00:00'' ''ERROR disk fu'' init_sqlite example_mongo)))
       = [''ERROR disk fu'']"
    by (simp add: monitor_line_def parse_log_line_def rstrip_nl_def levels_def upper_def
        upper_char_def store_defs flush_defs mongo_defs)
  show "fst (follow_poll (append_data (''ll'' @ [CHR 0x0A]) (example_file\<lparr>pos := 13\<rparr>)))
       = Some (''ll'' @ [CHR 0x0A])"
    by (simp add: example_file_def append_data_def follow_poll_def readline_def Let_def)
  show "map m_line
         (m_table (snd (tail_read example_pattern (\<lambda>n. ''2024-05-01T10:00:00'')
                          ''/tmp/test.log'' example_file example_db)))
       = [''ERROR disk fu'']"
    by (simp add: tail_read.simps example_file_def example_db_def example_pattern_def
        readline_def rstrip_nl_def upper_def upper_char_def persist_match_def Let_def)
qed

text \<open>
  C9, amended: for every read in which the unread rest of the file is a non-empty
  fragment without a line feed, \<open>readline\<close> returns the fragment and the position
  moves to the end of the file: \<open>follow\<close> yields the fragment as a line at once,
  \<open>parse_log_line\<close> classifies it, and \<open>monitor_logs\<close> persists it as an event of its
  own (its identifier being new to the outbox); the inner loop of \<open>tail_file\<close>
  persists the fragment when the pattern matches it and stops at the end of the file.
  Nothing is buffered: what the writer appends later is read as a separate line.
\<close>

theorem partial_line_emitted:
  assumes "pos f < length (content f)"
    and "CHR 0x0A \<notin> set (drop (pos f) (content f))"
  shows "follow_poll f = (Some (drop (pos f) (content f)), f\<lparr>pos := length (content f)\<rparr>)
     \<and> parse_log_line uuid4 ts (drop (pos f) (content f)) \<noteq> None
     \<and> (uuid4 \<notin> set (map event_id (table conn)) \<longrightarrow>
          (\<exists>r \<in> set (table (fst (monitor_line c batch_size now uuid4 ts
                                    (drop (pos f) (content f)) conn remote))).
             event_id r = uuid4 \<and> message r = drop (pos f) (content f)))
     \<and> tail_read pat clock path f db =
          (length (content f),
           if pat (drop (pos f) (content f))
           then persist_match (clock (m_seq db)) path (drop (pos f) (content f)) db
           else db)"
proof (intro conjI impI)
  let ?frag = "drop (pos f) (content f)"
  have ne: "?frag \<noteq> []" using assms(1) by simp
  have rl: "readline f = (?frag, f\<lparr>pos := length (content f)\<rparr>)"
    using assms by (rule readline_fragment)
  show "follow_poll f = (Some ?frag, f\<lparr>pos := length (content f)\<rparr>)"
    using ne by (simp add: follow_poll_def rl)
  have rs: "rstrip_nl ?frag = ?frag"
    using assms(2) by (rule rstrip_nl_id)
  show "parse_log_line uuid4 ts ?frag \<noteq> None"
    using ne by (simp add: parse_log_line_def rs Let_def)
  show "tail_read pat clock path f db =
          (length (content f),
           if pat ?frag then persist_match (clock (m_seq db)) path ?frag db else db)"
    using ne
    by (subst tail_read.simps, simp add: rl rs Let_def)
       (subst tail_read.simps, simp add: readline_eof)
next
  let ?frag = "drop (pos f) (content f)"
  assume fresh: "uuid4 \<notin> set (map event_id (table conn))"
  have ne: "?frag \<noteq> []" using assms(1) by simp
  have rs: "rstrip_nl ?frag = ?frag"
    using assms(2) by (rule rstrip_nl_id)
  define entry where "entry = \<lparr>entry_event_id = uuid4, entry_timestamp = ts,
      entry_message = ?frag, entry_severity = scan_levels (upper ?frag) levels ''INFO''\<rparr>"
  have p: "parse_log_line uuid4 ts ?frag = Some entry"
    using ne by (simp add: parse_log_line_def rs Let_def entry_def)
  define conn1 where "conn1 = fst (persist_log conn entry)"
  have "\<exists>r \<in> set (table conn1). event_id r = uuid4 \<and> message r = ?frag"
    using fresh by (simp add: conn1_def persist_log_def entry_def)
  then obtain r where r: "r \<in> set (table conn1)" "event_id r = uuid4" "message r = ?frag"
    by blast
  obtain ids where
    ids: "fst (snd (flush_outbox c batch_size now conn1 remote)) = mark_sent conn1 ids"
    using flush_outbox_store [of c batch_size now conn1 remote] by (elim exE)
  have m: "fst (monitor_line c batch_size now uuid4 ts ?frag conn remote) = mark_sent conn1 ids"
    using ids
    by (cases "persist_log conn entry"; cases "flush_outbox c batch_size now conn1 remote")
       (simp add: monitor_line_def p conn1_def)
  show "\<exists>r \<in> set (table (fst (monitor_line c batch_size now uuid4 ts ?frag conn remote))).
             event_id r = uuid4 \<and> message r = ?frag"
    unfolding m using mark_sent_rows [OF r(1), of ids] r(2,3) by auto
qed

theorem partial_line_emitted_witness:
  "pos example_file < length (content example_file)
   \<and> CHR 0x0A \<notin> set (drop (pos example_file) (content example_file))
   \<and> drop (pos example_file) (content example_file) = ''ERROR disk fu''
   \<and> follow_poll example_file = (Some ''ERROR disk fu'', example_file\<lparr>pos := 13\<rparr>)
   \<and> ''id-1'' \<notin> set (map event_id (table init_sqlite))
   \<and> example_pattern ''ERROR disk fu''
   \<and> tail_read example_pattern (\<lambda>n. ''2024-05-01T10:00:00'') ''/tmp/test.log''
        example_file example_db
       = (13, persist_match ''2024-05-01T10:00:00'' ''/tmp/test.log'' ''ERROR disk fu''
                example_db)"
proof -
  have h1: "pos example_file < length (content example_file)"
    and h2: "CHR 0x0A \<notin> set (drop (pos example_file) (content example_file))"
    and d: "drop (pos example_file) (content example_file) = ''ERROR disk fu''"
    and l: "length (content example_file) = 13"
    by (simp_all add: example_file_def)
  have fresh: "''id-1'' \<notin> set (map event_id (table init_sqlite))"
    by (simp add: init_sqlite_def)
  have pat: "example_pattern ''ERROR disk fu''"
    by (simp add: example_pattern_def upper_def upper_char_def)
  from partial_line_emitted [OF h1 h2, of "''id-1''" "''t''" init_sqlite mongo_coll 5
      "\<lambda>i. ''now''" example_mongo example_pattern "\<lambda>n. ''2024-05-01T10:00:00''"
      "''/tmp/test.log''" example_db]
  show ?thesis
    using h1 h2 fresh pat by (simp add: d l)
qed

section \<open>The minimal tail agent: the persisted snippet\<close>

text \<open>
  C10: for every line, \<open>persist_match\<close> appends one row whose \<open>line\<close> field is
  exactly the first 4000 characters of the line, which is the whole line when it has
  4000 characters or fewer, and whose \<open>filename\<close> field is the file name as given;
  the characters after the first 4000 are dropped without an error.
\<close>

theorem persist_match_snippet:
  "\<exists>row. persist_match utcnow filename line db
            = db\<lparr>m_table := m_table db @ [row], m_seq := m_id row\<rparr>
         \<and> m_line row = take 4000 line
         \<and> length (m_line row) = min 4000 (length line)
         \<and> (length line \<le> 4000 \<longrightarrow> m_line row = line)
         \<and> line = m_line row @ drop 4000 line
         \<and> m_filename row = filename
         \<and> m_timestamp row = utcnow @ ''Z''
         \<and> m_sent row = 0"
proof -
  let ?row = "\<lparr>m_id = Suc (fold max (map m_id (m_table db)) (m_seq db)),
               m_timestamp = utcnow @ ''Z'', m_filename = filename,
               m_line = take 4000 line, m_sent = 0\<rparr>"
  have "persist_match utcnow filename line db
          = db\<lparr>m_table := m_table db @ [?row], m_seq := m_id ?row\<rparr>"
    by (simp add: persist_match_def Let_def)
  then show ?thesis
    by (intro exI [of _ ?row]) (simp add: min.commute)
qed

theorem persist_match_snippet_witness:
  "length ''ERROR x'' \<le> (4000::nat)
   \<and> m_table (persist_match ''t'' ''/tmp/test.log'' ''ERROR x'' example_db)
       = [\<lparr>m_id = 1, m_timestamp = ''tZ'', m_filename = ''/tmp/test.log'',
           m_line = ''ERROR x'', m_sent = 0\<rparr>]
   \<and> map m_line (m_table (persist_match ''t'' ''/tmp/test.log''
                             (replicate 4000 CHR ''E'' @ ''tail'') example_db))
       = [replicate 4000 CHR ''E'']"
  using persist_match_snippet [of "''t''" "''/tmp/test.log''" "''ERROR x''" example_db]
     persist_match_snippet [of "''t''" "''/tmp/test.log''"
       "replicate 4000 CHR ''E'' @ ''tail''" example_db]
  by (auto simp add: example_db_def persist_match_def)

section \<open>Delivery: the outcomes of a batch\<close>

text \<open>
  C1: for every non-empty batch and every behaviour of the remote side,
  \<open>send_batch_to_mongo\<close> has one of three outcomes. When \<open>insert_many\<close> returns, all
  of the batch's \<open>event_id\<close>s are succeeded and none failed. When it raises
  \<open>BulkWriteError\<close>, the remote collection is queried for the batch's \<open>event_id\<close>s
  and the function returns, without raising, the partition of the batch's
  \<open>event_id\<close>s into those found (succeeded) and the rest (failed). Every other
  failure is raised to the caller: an exception of \<open>insert_many\<close> other than
  \<open>BulkWriteError\<close>, and an exception of the query itself.
\<close>

theorem send_batch_to_mongo_outcomes:
  assumes "docs \<noteq> []"
  shows
   "(\<forall>remote1. insert_many c docs remote = (Inr (), remote1) \<longrightarrow>
        send_batch_to_mongo c docs remote = (Inr (map doc_event_id docs, []), remote1))
    \<and> (\<forall>remote1 remote2 found.
          insert_many c docs remote = (Inl BulkWriteError, remote1)
          \<and> find_event_ids c (map doc_event_id docs) remote1 = (Inr found, remote2) \<longrightarrow>
          (\<exists>succeeded failed.
             send_batch_to_mongo c docs remote = (Inr (succeeded, failed), remote2)
             \<and> succeeded = filter (\<lambda>eid. eid \<in> set found) (map doc_event_id docs)
             \<and> failed = filter (\<lambda>eid. eid \<notin> set found) (map doc_event_id docs)
             \<and> set succeeded = set (map doc_event_id docs) \<inter> set found
             \<and> set failed = set (map doc_event_id docs) - set found
             \<and> set succeeded \<union> set failed = set (map doc_event_id docs)
             \<and> set succeeded \<inter> set failed = {}))
    \<and> (\<forall>e remote1.
          insert_many c docs remote = (Inl e, remote1) \<and> e \<noteq> BulkWriteError \<longrightarrow>
          send_batch_to_mongo c docs remote = (Inl e, remote1))
    \<and> (\<forall>e remote1 remote2.
          insert_many c docs remote = (Inl BulkWriteError, remote1)
          \<and> find_event_ids c (map doc_event_id docs) remote1 = (Inl e, remote2) \<longrightarrow>
          send_batch_to_mongo c docs remote = (Inl e, remote2))"
proof (intro conjI allI impI)
  fix remote1
  assume "insert_many c docs remote = (Inr (), remote1)"
  with assms show "send_batch_to_mongo c docs remote = (Inr (map doc_event_id docs, []), remote1)"
    by (simp add: send_batch_to_mongo_def)
next
  fix remote1 remote2 found
  assume "insert_many c docs remote = (Inl BulkWriteError, remote1)
          \<and> find_event_ids c (map doc_event_id docs) remote1 = (Inr found, remote2)"
  with assms have "send_batch_to_mongo c docs remote =
      (Inr (filter (\<lambda>eid. eid \<in> set found) (map doc_event_id docs),
            filter (\<lambda>eid. eid \<notin> set found) (map doc_event_id docs)), remote2)"
    by (simp add: send_batch_to_mongo_def Let_def)
  then show "\<exists>succeeded failed.
             send_batch_to_mongo c docs remote = (Inr (succeeded, failed), remote2)
             \<and> succeeded = filter (\<lambda>eid. eid \<in> set found) (map doc_event_id docs)
             \<and> failed = filter (\<lambda>eid. eid \<notin> set found) (map doc_event_id docs)
             \<and> set succeeded = set (map doc_event_id docs) \<inter> set found
             \<and> set failed = set (map doc_event_id docs) - set found
             \<and> set succeeded \<union> set failed = set (map doc_event_id docs)
             \<and> set succeeded \<inter> set failed = {}"
    by auto
next
  fix e remote1
  assume "insert_many c docs remote = (Inl e, remote1) \<and> e \<noteq> BulkWriteError"
  with assms show "send_batch_to_mongo c docs remote = (Inl e, remote1)"
    by (cases e) (simp_all add: send_batch_to_mongo_def)
next
  fix e remote1 remote2
  assume "insert_many c docs remote = (Inl BulkWriteError, remote1)
          \<and> find_event_ids c (map doc_event_id docs) remote1 = (Inl e, remote2)"
  with assms show "send_batch_to_mongo c docs remote = (Inl e, remote2)"
    by (simp add: send_batch_to_mongo_def Let_def)
qed

lemmas example_doc_defs = example_docs_def example_doc_def example_mongo_strict_def
  example_dropping_coll_def

lemma example_insert_accepted: "insert_many mongo_coll example_docs example_mongo
        = (Inr (), example_mongo\<lparr>documents := example_docs\<rparr>)"
  by (simp add: mongo_defs example_doc_defs)

lemma example_insert_partial: "insert_many mongo_coll example_docs example_mongo_strict
        = (Inl BulkWriteError,
           example_mongo_strict\<lparr>documents := [example_doc ''id-1'' ''ERROR'', example_doc ''id-3'' ''INFO'']\<rparr>)"
  by (simp add: mongo_defs example_doc_defs)

lemma example_find_partial: "find_event_ids mongo_coll (map doc_event_id example_docs) 
          (example_mongo_strict\<lparr>documents := [example_doc ''id-1'' ''ERROR'', example_doc ''id-3'' ''INFO'']\<rparr>)
        = (Inr [''id-1'', ''id-3''], example_mongo_strict\<lparr>documents := [example_doc ''id-1'' ''ERROR'', example_doc ''id-3'' ''INFO'']\<rparr>)"
  by (simp add: mongo_defs example_doc_defs)

lemma example_insert_down: "insert_many mongo_coll example_docs (example_mongo\<lparr>reachable := False\<rparr>)
        = (Inl ConnectionFailure, example_mongo\<lparr>reachable := False\<rparr>)"
  by (simp add: mongo_defs example_doc_defs)

lemma example_insert_dropping: "insert_many example_dropping_coll example_docs example_mongo_strict
        = (Inl BulkWriteError,
           example_mongo_strict\<lparr>documents := [example_doc ''id-1'' ''ERROR'', example_doc ''id-3'' ''INFO'']\<rparr>)"
  by (simp add: mongo_defs example_doc_defs)

lemma example_find_dropping: "find_event_ids example_dropping_coll (map doc_event_id example_docs) 
          (example_mongo_strict\<lparr>documents := [example_doc ''id-1'' ''ERROR'', example_doc ''id-3'' ''INFO'']\<rparr>)
        = (Inl ConnectionFailure, example_mongo_strict\<lparr>documents := [example_doc ''id-1'' ''ERROR'', example_doc ''id-3'' ''INFO''], reachable := False\<rparr>)"
  by (simp add: mongo_defs example_doc_defs)

lemma example_docs_nonempty: "example_docs \<noteq> []" by (simp add: example_docs_def)

theorem send_batch_to_mongo_outcomes_witness:
  "example_docs \<noteq> []
   \<and> fst (insert_many mongo_coll example_docs example_mongo) = Inr ()
   \<and> fst (send_batch_to_mongo mongo_coll example_docs example_mongo)
       = Inr ([''id-1'', ''id-2'', ''id-3''], [])
   \<and> fst (insert_many mongo_coll example_docs example_mongo_strict) = Inl BulkWriteError
   \<and> fst (send_batch_to_mongo mongo_coll example_docs example_mongo_strict)
       = Inr ([''id-1'', ''id-3''], [''id-2''])
   \<and> fst (insert_many mongo_coll example_docs (example_mongo\<lparr>reachable := False\<rparr>))
       = Inl ConnectionFailure
   \<and> ConnectionFailure \<noteq> BulkWriteError
   \<and> fst (send_batch_to_mongo mongo_coll example_docs (example_mongo\<lparr>reachable := False\<rparr>))
       = Inl ConnectionFailure
   \<and> fst (insert_many example_dropping_coll example_docs example_mongo_strict)
       = Inl BulkWriteError
   \<and> fst (send_batch_to_mongo example_dropping_coll example_docs example_mongo_strict)
       = Inl ConnectionFailure"
proof -
  note t = send_batch_to_mongo_outcomes [OF example_docs_nonempty]
  have a: "fst (send_batch_to_mongo mongo_coll example_docs example_mongo)
       = Inr ([''id-1'', ''id-2'', ''id-3''], [])"
    using t [of mongo_coll example_mongo] example_insert_accepted by (simp add: example_doc_defs)
  have b: "fst (send_batch_to_mongo mongo_coll example_docs example_mongo_strict)
       = Inr ([''id-1'', ''id-3''], [''id-2''])"
    using t [of mongo_coll example_mongo_strict] example_insert_partial example_find_partial by (simp add: example_docs_def example_doc_def)
  have c: "fst (send_batch_to_mongo mongo_coll example_docs (example_mongo\<lparr>reachable := False\<rparr>))
       = Inl ConnectionFailure"
    using t [of mongo_coll "example_mongo\<lparr>reachable := False\<rparr>"] example_insert_down by simp
  have d: "fst (send_batch_to_mongo example_dropping_coll example_docs example_mongo_strict)
       = Inl ConnectionFailure"
    using t [of example_dropping_coll example_mongo_strict] example_insert_dropping example_find_dropping by simp
  show ?thesis
    using a b c d example_insert_accepted example_insert_partial example_insert_down example_insert_dropping example_docs_nonempty by simp
qed

section \<open>The flush: what it changes\<close>

lemma send_batch_partition:
  assumes "send_batch_to_mongo c docs remote = (Inr (succeeded, failed), remote1)"
  shows "set succeeded \<inter> set failed = {}
       \<and> set succeeded \<union> set failed = set (map doc_event_id docs)"
proof (cases "docs = []")
  case True
  with assms show ?thesis by (simp add: send_batch_to_mongo_def)
next
  case False
  obtain res r1 where i: "insert_many c docs remote = (res, r1)"
    by (cases "insert_many c docs remote")
  show ?thesis
  proof (cases res)
    case (Inr u)
    with assms False i show ?thesis
      by (auto simp: send_batch_to_mongo_def)
  next
    case (Inl e)
    show ?thesis
    proof (cases e)
      case BulkWriteError
      obtain res2 r2 where f: "find_event_ids c (map doc_event_id docs) r1 = (res2, r2)"
        by (cases "find_event_ids c (map doc_event_id docs) r1")
      with assms False i Inl BulkWriteError show ?thesis
        by (cases res2) (auto simp: send_batch_to_mongo_def Let_def)
    next
      case ConnectionFailure
      with assms False i Inl show ?thesis by (simp add: send_batch_to_mongo_def)
    next
      case OtherError
      with assms False i Inl show ?thesis by (simp add: send_batch_to_mongo_def)
    qed
  qed
qed

lemma build_docs_event_ids: "map doc_event_id (build_docs now i rows) = map fst rows"
  by (induction now i rows rule: build_docs.induct) simp_all

lemma fetch_unsent_event_ids:
  "map fst (fetch_unsent conn limit) = map event_id (selected_rows conn limit)"
  by (simp add: fetch_unsent_def columns_def)

lemma selected_rows_unsent:
  "r \<in> set (selected_rows conn limit) \<Longrightarrow> r \<in> set (table conn) \<and> sent r = 0"
  by (auto simp: selected_rows_def sql_limit_def unsent_rows_def
      dest: in_set_takeD split: if_splits)

lemma flush_outbox_sent:
  assumes "fetch_unsent conn batch_size \<noteq> []"
    and "send_batch_to_mongo c (build_docs now 0 (fetch_unsent conn batch_size)) remote
           = (Inr (succeeded, failed), remote1)"
  shows "fst (snd (flush_outbox c batch_size now conn remote)) = mark_sent conn succeeded"
    and "fst (flush_outbox c batch_size now conn remote) = Inr ()"
    and "fst (snd (snd (flush_outbox c batch_size now conn remote))) = remote1"
  using assms by (simp_all add: flush_outbox_def Let_def mark_sent_def)

text \<open>
  C8: for every \<open>flush_outbox\<close> call in which \<open>send_batch_to_mongo\<close> returns
  \<open>(succeeded, failed)\<close>, the two lists are disjoint, the table keeps its length and
  order, every record whose \<open>event_id\<close> is in \<open>failed\<close> is exactly as before, every
  record whose \<open>event_id\<close> is not in \<open>succeeded\<close> is exactly as before, and a record
  whose \<open>event_id\<close> is in \<open>succeeded\<close> differs at most in \<open>sent\<close>, which is 1. On a
  table with unique \<open>event_id\<close>s the failed records were unsent and stay unsent.
\<close>

theorem flush_outbox_frame:
  assumes rows: "fetch_unsent conn batch_size \<noteq> []"
    and send: "send_batch_to_mongo c (build_docs now 0 (fetch_unsent conn batch_size)) remote
                 = (Inr (succeeded, failed), remote1)"
    and conn': "conn' = fst (snd (flush_outbox c batch_size now conn remote))"
  shows "length (table conn') = length (table conn) \<and> seq conn' = seq conn
     \<and> set succeeded \<inter> set failed = {}
     \<and> (\<forall>i < length (table conn).
           (event_id (table conn ! i) \<in> set failed \<longrightarrow> table conn' ! i = table conn ! i)
         \<and> (event_id (table conn ! i) \<notin> set succeeded \<longrightarrow> table conn' ! i = table conn ! i)
         \<and> (event_id (table conn ! i) \<in> set succeeded \<longrightarrow>
              table conn' ! i = (table conn ! i)\<lparr>sent := 1\<rparr>))
     \<and> (unique_event_ids conn \<longrightarrow>
          (\<forall>i < length (table conn). event_id (table conn ! i) \<in> set failed \<longrightarrow>
             sent (table conn ! i) = 0 \<and> sent (table conn' ! i) = 0))"
proof -
  have c: "conn' = mark_sent conn succeeded"
    using flush_outbox_sent(1) [OF rows send] conn' by simp
  have part: "set succeeded \<inter> set failed = {}"
    and cover: "set succeeded \<union> set failed
                  = set (map doc_event_id (build_docs now 0 (fetch_unsent conn batch_size)))"
    using send_batch_partition [OF send] by simp_all
  have len: "length (table conn') = length (table conn)" and sq: "seq conn' = seq conn"
    by (simp_all add: c mark_sent_def)
  have upd: "\<And>i. i < length (table conn) \<Longrightarrow>
      table conn' ! i = (if event_id (table conn ! i) \<in> set succeeded
                         then (table conn ! i)\<lparr>sent := 1\<rparr> else table conn ! i)"
    by (auto simp: c mark_sent_def)
  have frame: "\<And>i. i < length (table conn) \<Longrightarrow> event_id (table conn ! i) \<in> set failed \<Longrightarrow>
      table conn' ! i = table conn ! i"
    using part upd by auto
  have unsent: "\<And>i. unique_event_ids conn \<Longrightarrow> i < length (table conn) \<Longrightarrow>
      event_id (table conn ! i) \<in> set failed \<Longrightarrow> sent (table conn ! i) = 0"
  proof -
    fix i
    assume u: "unique_event_ids conn" and i: "i < length (table conn)"
      and f: "event_id (table conn ! i) \<in> set failed"
    from f cover have "event_id (table conn ! i)
        \<in> set (map event_id (selected_rows conn batch_size))"
      by (auto simp: build_docs_event_ids fetch_unsent_event_ids)
    then obtain r where r: "r \<in> set (selected_rows conn batch_size)"
      and e: "event_id r = event_id (table conn ! i)"
      by auto
    from r have rt: "r \<in> set (table conn)" and rs: "sent r = 0"
      using selected_rows_unsent by blast+
    from u have "inj_on event_id (set (table conn))"
      by (simp add: unique_event_ids_def distinct_map)
    with rt e i have "r = table conn ! i"
      by (auto dest: inj_onD)
    with rs show "sent (table conn ! i) = 0" by simp
  qed
  show ?thesis
    using len sq part upd frame unsent by auto
qed

lemma example_outbox_rows: "fetch_unsent example_outbox 5 \<noteq> []"
  by (simp add: example_outbox_def flush_defs)

lemma example_outbox_send:
  "send_batch_to_mongo mongo_coll (build_docs example_clock 0 (fetch_unsent example_outbox 5))
     example_mongo_strict = (Inr ([''id-1''], [''id-3'']), example_mongo_strict)"
  by (simp add: example_outbox_def flush_defs mongo_coll_def mongo_insert_many_def
      mongo_find_event_ids_def example_mongo_strict_def example_doc_def example_clock_def)

theorem flush_outbox_frame_witness:
  "fetch_unsent example_outbox 5 \<noteq> []
   \<and> send_batch_to_mongo mongo_coll
        (build_docs example_clock 0 (fetch_unsent example_outbox 5)) example_mongo_strict
       = (Inr ([''id-1''], [''id-3'']), example_mongo_strict)
   \<and> unique_event_ids example_outbox
   \<and> (2::nat) < length (table example_outbox)
   \<and> event_id (table example_outbox ! 2) \<in> set [''id-3'']
   \<and> table (fst (snd (flush_outbox mongo_coll 5 example_clock example_outbox
                         example_mongo_strict))) ! 2
       = table example_outbox ! 2
   \<and> sent (table (fst (snd (flush_outbox mongo_coll 5 example_clock example_outbox
                               example_mongo_strict))) ! 2) = 0
   \<and> (0::nat) < length (table example_outbox)
   \<and> event_id (table example_outbox ! 0) \<in> set [''id-1'']
   \<and> table (fst (snd (flush_outbox mongo_coll 5 example_clock example_outbox
                         example_mongo_strict))) ! 0
       = (table example_outbox ! 0)\<lparr>sent := 1\<rparr>"
proof -
  note t = flush_outbox_frame [OF example_outbox_rows example_outbox_send refl]
  have i2: "(2::nat) < length (table example_outbox)"
    and e2: "event_id (table example_outbox ! 2) \<in> set [''id-3'']"
    and i0: "(0::nat) < length (table example_outbox)"
    and e0: "event_id (table example_outbox ! 0) \<in> set [''id-1'']"
    by (simp_all add: example_outbox_def)
  from t have frame: "\<forall>i < length (table example_outbox).
      (event_id (table example_outbox ! i) \<in> set [''id-3''] \<longrightarrow>
         table (fst (snd (flush_outbox mongo_coll 5 example_clock example_outbox
                            example_mongo_strict))) ! i = table example_outbox ! i)
      \<and> (event_id (table example_outbox ! i) \<notin> set [''id-1''] \<longrightarrow>
         table (fst (snd (flush_outbox mongo_coll 5 example_clock example_outbox
                            example_mongo_strict))) ! i = table example_outbox ! i)
      \<and> (event_id (table example_outbox ! i) \<in> set [''id-1''] \<longrightarrow>
         table (fst (snd (flush_outbox mongo_coll 5 example_clock example_outbox
                            example_mongo_strict))) ! i = (table example_outbox ! i)\<lparr>sent := 1\<rparr>)"
    by (elim conjE)
  from t example_outbox_unique have unsent: "\<forall>i < length (table example_outbox).
      event_id (table example_outbox ! i) \<in> set [''id-3''] \<longrightarrow>
        sent (table example_outbox ! i) = 0
        \<and> sent (table (fst (snd (flush_outbox mongo_coll 5 example_clock example_outbox
                                    example_mongo_strict))) ! i) = 0"
    by (elim conjE) (erule mp)
  from frame i2 e2 have a: "table (fst (snd (flush_outbox mongo_coll 5 example_clock
      example_outbox example_mongo_strict))) ! 2 = table example_outbox ! 2"
    by blast
  from unsent i2 e2 have b: "sent (table (fst (snd (flush_outbox mongo_coll 5 example_clock
      example_outbox example_mongo_strict))) ! 2) = 0"
    by blast
  from frame i0 e0 have c: "table (fst (snd (flush_outbox mongo_coll 5 example_clock
      example_outbox example_mongo_strict))) ! 0 = (table example_outbox ! 0)\<lparr>sent := 1\<rparr>"
    by blast
  show ?thesis
    using example_outbox_rows example_outbox_send example_outbox_unique i2 e2 i0 e0 a b c
    by (intro conjI)
qed

section \<open>The flush: twelve events in batches of five\<close>

lemma insert_unordered_fresh:
  "\<forall>d \<in> set docs. ok d \<Longrightarrow> distinct (map doc_event_id docs) \<Longrightarrow>
   set (map doc_event_id docs) \<inter> set (map doc_event_id stored) = {} \<Longrightarrow>
   insert_unordered ok docs stored = (stored @ docs, 0)"
proof (induction docs arbitrary: stored)
  case Nil
  show ?case by simp
next
  case (Cons d ds)
  have "insert_unordered ok ds (stored @ [d]) = ((stored @ [d]) @ ds, 0)"
    using Cons.prems by (intro Cons.IH) auto
  with Cons.prems show ?case by auto
qed

lemma unsent_rows_distinct:
  assumes "unique_event_ids conn"
  shows "distinct (map event_id (unsent_rows conn))"
proof -
  have "mset (map event_id (unsent_rows conn))
          = mset (map event_id (filter (\<lambda>r. sent r = 0) (table conn)))"
    by (simp add: unsent_rows_def)
  moreover have "distinct (map event_id (filter (\<lambda>r. sent r = 0) (table conn)))"
    using assms by (simp add: unique_event_ids_def distinct_map_filter)
  ultimately show ?thesis
    by (metis mset_eq_imp_distinct_iff)
qed

lemma filter_map_unsent:
  "filter (\<lambda>r. sent r = 0) (map (\<lambda>r. if event_id r \<in> S then r\<lparr>sent := 1\<rparr> else r) xs)
     = filter (\<lambda>r. event_id r \<notin> S) (filter (\<lambda>r. sent r = 0) xs)"
  by (induction xs) auto

lemma filter_taken:
  "distinct (map f ys) \<Longrightarrow> filter (\<lambda>y. f y \<notin> set (map f (take n ys))) ys = drop n ys"
proof -
  assume d: "distinct (map f ys)"
  have "distinct (map f (take n ys) @ map f (drop n ys))"
    using d by (simp flip: map_append)
  then have dis: "set (map f (take n ys)) \<inter> set (map f (drop n ys)) = {}"
    by (simp only: distinct_append) 
  have a: "filter (\<lambda>y. f y \<notin> set (map f (take n ys))) (take n ys) = []"
    by (auto simp: filter_empty_conv)
  have b: "filter (\<lambda>y. f y \<notin> set (map f (take n ys))) (drop n ys) = drop n ys"
    using dis by (auto simp: filter_id_conv)
  have "filter (\<lambda>y. f y \<notin> set (map f (take n ys))) (take n ys @ drop n ys) = drop n ys"
    unfolding filter_append a b by simp
  then show ?thesis by simp
qed

lemma unsent_rows_mark_sent:
  assumes "unique_event_ids conn"
  shows "unsent_rows (mark_sent conn (map event_id (take n (unsent_rows conn))))
           = drop n (unsent_rows conn)"
proof (cases "map event_id (take n (unsent_rows conn)) = []")
  case True
  then have "take n (unsent_rows conn) = []" by simp
  then have "drop n (unsent_rows conn) = unsent_rows conn"
    by (metis append_take_drop_id append_Nil)
  with True show ?thesis by (simp add: mark_sent_def)
next
  case False
  let ?S = "set (map event_id (take n (unsent_rows conn)))"
  have "unsent_rows (mark_sent conn (map event_id (take n (unsent_rows conn))))
      = sort_key row_id (filter (\<lambda>r. event_id r \<notin> ?S) (filter (\<lambda>r. sent r = 0) (table conn)))"
    using False by (simp add: unsent_rows_def mark_sent_def filter_map_unsent)
  also have "\<dots> = filter (\<lambda>r. event_id r \<notin> ?S) (unsent_rows conn)"
    by (simp only: unsent_rows_def filter_sort)
  also have "\<dots> = drop n (unsent_rows conn)"
    using unsent_rows_distinct [OF assms] by (rule filter_taken)
  finally show ?thesis .
qed


lemma selected_rows_take: "selected_rows conn (int n) = take n (unsent_rows conn)"
  by (simp add: selected_rows_def sql_limit_def)

lemma flush_outbox_accepted:
  assumes u: "unique_event_ids conn"
    and ne: "unsent_rows conn \<noteq> []"
    and up: "reachable remote"
    and ok: "\<forall>d. validator remote d"
    and fresh: "set (map doc_event_id (documents remote))
                  \<inter> set (map event_id (unsent_rows conn)) = {}"
    and n: "0 < n"
    and fl: "flush_outbox mongo_coll (int n) now conn remote = (res, conn', remote', out)"
  shows "res = Inr ()"
    and "conn' = mark_sent conn (map event_id (take n (unsent_rows conn)))"
    and "unsent_rows conn' = drop n (unsent_rows conn)"
    and "unique_event_ids conn'"
    and "reachable remote'"
    and "\<forall>d. validator remote' d"
    and "map doc_event_id (documents remote')
           = map doc_event_id (documents remote) @ map event_id (take n (unsent_rows conn))"
    and "hd out = SentBatch (min n (length (unsent_rows conn)))"
    and "set (map doc_event_id (documents remote'))
           \<inter> set (map event_id (unsent_rows conn')) = {}"
proof -
  let ?U = "unsent_rows conn"
  let ?B = "take n ?U"
  let ?ids = "map event_id ?B"
  let ?docs = "build_docs now 0 (fetch_unsent conn (int n))"
  have B_ne: "?B \<noteq> []" using ne n by simp
  have rows: "fetch_unsent conn (int n) = map columns ?B"
    by (simp add: fetch_unsent_def selected_rows_take)
  have rows_ne: "fetch_unsent conn (int n) \<noteq> []"
    using B_ne by (simp add: rows)
  have ids: "map doc_event_id ?docs = ?ids"
    by (simp add: build_docs_event_ids fetch_unsent_event_ids selected_rows_take)
  have docs_ne: "?docs \<noteq> []"
    using B_ne ids by (metis map_is_Nil_conv)
  have dU: "distinct (map event_id ?U)"
    using u by (rule unsent_rows_distinct)
  have dU': "distinct (map event_id ?B @ map event_id (drop n ?U))"
    using dU by (simp flip: map_append)
  have d_ids: "distinct (map doc_event_id ?docs)"
    using dU' by (simp add: ids)
  have sub: "set ?ids \<subseteq> set (map event_id ?U)"
    by (auto dest: in_set_takeD)
  have disj: "set (map doc_event_id ?docs) \<inter> set (map doc_event_id (documents remote)) = {}"
    using fresh sub unfolding ids by blast
  have ins: "insert_unordered (validator remote) ?docs (documents remote)
               = (documents remote @ ?docs, 0)"
    using ok d_ids disj by (intro insert_unordered_fresh) auto
  have im: "insert_many mongo_coll ?docs remote
              = (Inr (), remote\<lparr>documents := documents remote @ ?docs\<rparr>)"
    using up by (simp add: mongo_coll_def mongo_insert_many_def ins)
  have sb: "send_batch_to_mongo mongo_coll ?docs remote
              = (Inr (?ids, []), remote\<lparr>documents := documents remote @ ?docs\<rparr>)"
    using docs_ne by (simp add: send_batch_to_mongo_def im ids)
  have ids_ne: "?ids \<noteq> []" using B_ne by simp
  have "flush_outbox mongo_coll (int n) now conn remote
      = (Inr (), mark_sent conn ?ids, remote\<lparr>documents := documents remote @ ?docs\<rparr>,
         SentBatch (length ?ids) # map (\<lambda>eid. SentEvent eid (message_of ?docs eid)) ?ids)"
    using rows_ne ids_ne by (simp add: flush_outbox_def Let_def sb)
  with fl have res: "res = Inr ()" and c: "conn' = mark_sent conn ?ids"
    and r: "remote' = remote\<lparr>documents := documents remote @ ?docs\<rparr>"
    and o: "out = SentBatch (length ?ids) # map (\<lambda>eid. SentEvent eid (message_of ?docs eid)) ?ids"
    by simp_all
  have U': "unsent_rows conn' = drop n ?U"
    unfolding c using u by (rule unsent_rows_mark_sent)
  have u': "unique_event_ids conn'"
    using u by (simp add: c mark_sent_unique)
  have rd: "map doc_event_id (documents remote')
         = map doc_event_id (documents remote) @ ?ids"
    by (simp add: r ids)
  have "set (map event_id (drop n ?U)) \<subseteq> set (map event_id ?U)"
    by (auto dest: in_set_dropD)
  moreover have "set ?ids \<inter> set (map event_id (drop n ?U)) = {}"
    using dU' by (simp only: distinct_append)
  moreover have "set (map doc_event_id (documents remote'))
      = set (map doc_event_id (documents remote)) \<union> set ?ids"
    by (simp only: rd set_append)
  ultimately have fresh': "set (map doc_event_id (documents remote'))
          \<inter> set (map event_id (unsent_rows conn')) = {}"
    using fresh unfolding U' by blast
  show "res = Inr ()" by (rule res)
  show "conn' = mark_sent conn ?ids" by (rule c)
  show "unsent_rows conn' = drop n ?U" by (rule U')
  show "unique_event_ids conn'" by (rule u')
  show "reachable remote'" using up by (simp add: r)
  show "\<forall>d. validator remote' d" using ok by (simp add: r)
  show "map doc_event_id (documents remote') = map doc_event_id (documents remote) @ ?ids"
    by (rule rd)
  show "hd out = SentBatch (min n (length ?U))" by (simp add: o min.commute)
  show "set (map doc_event_id (documents remote'))
          \<inter> set (map event_id (unsent_rows conn')) = {}"
    by (rule fresh')
qed


text \<open>
  C4: start from a store with unique \<open>event_id\<close>s that holds exactly 12 unsent events,
  with \<open>BATCH_SIZE = 5\<close> and a remote collection that accepts every insert (it is
  reachable, rejects no document and holds none of the 12 \<open>event_id\<close>s). Then three
  successive \<open>flush_outbox\<close> calls return without an exception and deliver batches of
  5, 5 and 2 documents, the oldest unsent events first; after them no record is
  unsent, and the remote collection has received exactly the 12 \<open>event_id\<close>s, each
  once.
\<close>

theorem flush_outbox_twelve:
  assumes u0: "unique_event_ids conn0"
    and len: "length (unsent_rows conn0) = 12"
    and up: "reachable r0"
    and ok: "\<forall>d. validator r0 d"
    and fresh: "set (map doc_event_id (documents r0))
                  \<inter> set (map event_id (unsent_rows conn0)) = {}"
    and f1: "flush_outbox mongo_coll 5 now1 conn0 r0 = (res1, conn1, r1, out1)"
    and f2: "flush_outbox mongo_coll 5 now2 conn1 r1 = (res2, conn2, r2, out2)"
    and f3: "flush_outbox mongo_coll 5 now3 conn2 r2 = (res3, conn3, r3, out3)"
  shows "res1 = Inr () \<and> res2 = Inr () \<and> res3 = Inr ()
     \<and> hd out1 = SentBatch 5 \<and> hd out2 = SentBatch 5 \<and> hd out3 = SentBatch 2
     \<and> map doc_event_id (documents r1)
         = map doc_event_id (documents r0) @ map event_id (take 5 (unsent_rows conn0))
     \<and> map doc_event_id (documents r2)
         = map doc_event_id (documents r1) @ map event_id (take 5 (drop 5 (unsent_rows conn0)))
     \<and> map doc_event_id (documents r3)
         = map doc_event_id (documents r2) @ map event_id (drop 10 (unsent_rows conn0))
     \<and> length (documents r1) = length (documents r0) + 5
     \<and> length (documents r2) = length (documents r1) + 5
     \<and> length (documents r3) = length (documents r2) + 2
     \<and> length (unsent_rows conn1) = 7 \<and> length (unsent_rows conn2) = 2
     \<and> unsent_rows conn3 = []
     \<and> (\<forall>r \<in> set (table conn3). sent r \<noteq> 0)
     \<and> map event_id (table conn3) = map event_id (table conn0)
     \<and> map doc_event_id (documents r3)
         = map doc_event_id (documents r0) @ map event_id (unsent_rows conn0)
     \<and> distinct (map event_id (unsent_rows conn0))
     \<and> length (map event_id (unsent_rows conn0)) = 12"
proof -
  let ?U = "unsent_rows conn0"
  have five: "(5::int) = int 5" by simp
  have ne0: "?U \<noteq> []" using len by auto
  note s1 = flush_outbox_accepted [OF u0 ne0 up ok fresh _ f1 [unfolded five]]
  have a1: "res1 = Inr ()" and c1: "conn1 = mark_sent conn0 (map event_id (take 5 ?U))"
    and U1: "unsent_rows conn1 = drop 5 ?U" and u1: "unique_event_ids conn1"
    and up1: "reachable r1" and ok1: "\<forall>d. validator r1 d"
    and d1: "map doc_event_id (documents r1)
               = map doc_event_id (documents r0) @ map event_id (take 5 ?U)"
    and o1: "hd out1 = SentBatch (min 5 (length ?U))"
    and fresh1: "set (map doc_event_id (documents r1))
                  \<inter> set (map event_id (unsent_rows conn1)) = {}"
    by (rule s1, simp)+
  have ne1: "unsent_rows conn1 \<noteq> []" using len U1 by auto
  note s2 = flush_outbox_accepted [OF u1 ne1 up1 ok1 fresh1 _ f2 [unfolded five]]
  have a2: "res2 = Inr ()"
    and c2: "conn2 = mark_sent conn1 (map event_id (take 5 (unsent_rows conn1)))"
    and U2: "unsent_rows conn2 = drop 5 (unsent_rows conn1)" and u2: "unique_event_ids conn2"
    and up2: "reachable r2" and ok2: "\<forall>d. validator r2 d"
    and d2: "map doc_event_id (documents r2)
               = map doc_event_id (documents r1) @ map event_id (take 5 (unsent_rows conn1))"
    and o2: "hd out2 = SentBatch (min 5 (length (unsent_rows conn1)))"
    and fresh2: "set (map doc_event_id (documents r2))
                  \<inter> set (map event_id (unsent_rows conn2)) = {}"
    by (rule s2, simp)+
  have ne2: "unsent_rows conn2 \<noteq> []" using len U1 U2 by auto
  note s3 = flush_outbox_accepted [OF u2 ne2 up2 ok2 fresh2 _ f3 [unfolded five]]
  have a3: "res3 = Inr ()"
    and c3: "conn3 = mark_sent conn2 (map event_id (take 5 (unsent_rows conn2)))"
    and U3: "unsent_rows conn3 = drop 5 (unsent_rows conn2)"
    and d3: "map doc_event_id (documents r3)
               = map doc_event_id (documents r2) @ map event_id (take 5 (unsent_rows conn2))"
    and o3: "hd out3 = SentBatch (min 5 (length (unsent_rows conn2)))"
    by (rule s3, simp)+
  have l1: "length (unsent_rows conn1) = 7" and l2: "length (unsent_rows conn2) = 2"
    using len by (simp_all add: U1 U2)
  have e3: "unsent_rows conn3 = []"
    using len by (simp add: U3 U2 U1)
  have U2': "unsent_rows conn2 = drop 10 ?U"
    by (simp add: U2 U1)
  have t3: "take 5 (unsent_rows conn2) = drop 10 ?U"
    using l2 by (simp add: U2')
  have split: "take 5 ?U @ take 5 (drop 5 ?U) @ drop 10 ?U = ?U"
  proof -
    have "take 5 ?U @ take 5 (drop 5 ?U) = take 10 ?U"
      using take_add [of 5 5 ?U] by simp
    then have "(take 5 ?U @ take 5 (drop 5 ?U)) @ drop 10 ?U = take 10 ?U @ drop 10 ?U"
      by (rule arg_cong)
    then show ?thesis by (simp only: append_assoc append_take_drop_id)
  qed
  have all: "map doc_event_id (documents r3)
         = map doc_event_id (documents r0) @ map event_id ?U"
  proof -
    have "map doc_event_id (documents r3)
        = map doc_event_id (documents r0)
          @ map event_id (take 5 ?U @ take 5 (drop 5 ?U) @ drop 10 ?U)"
      by (simp add: d3 d2 d1 t3 U1)
    then show ?thesis by (simp only: split)
  qed
  have sent3: "\<forall>r \<in> set (table conn3). sent r \<noteq> 0"
  proof
    fix r assume "r \<in> set (table conn3)"
    show "sent r \<noteq> 0"
    proof
      assume "sent r = 0"
      with \<open>r \<in> set (table conn3)\<close> have "r \<in> set (unsent_rows conn3)"
        by (simp add: unsent_rows_def)
      with e3 show False by simp
    qed
  qed
  have ev: "map event_id (table conn3) = map event_id (table conn0)"
    by (simp add: c3 c2 c1 mark_sent_event_ids)
  have n1: "length (documents r1) = length (documents r0) + 5"
    using arg_cong [OF d1, of length] len by simp
  have n2: "length (documents r2) = length (documents r1) + 5"
    using arg_cong [OF d2, of length] l1 by simp
  have n3: "length (documents r3) = length (documents r2) + 2"
    using arg_cong [OF d3, of length] l2 by simp
  have dist: "distinct (map event_id ?U)"
    using u0 by (rule unsent_rows_distinct)
  show ?thesis
    using a1 a2 a3 o1 o2 o3 d1 d2 d3 n1 n2 n3 l1 l2 e3 sent3 ev all dist len
    by (simp add: U1 t3)
qed


lemma example_twelve_table:
  "map (\<lambda>r. (row_id r, event_id r, sent r)) (table example_twelve)
     = [(1, ''e01'', 0), (2, ''e02'', 0), (3, ''e03'', 0), (4, ''e04'', 0),
        (5, ''e05'', 0), (6, ''e06'', 0), (7, ''e07'', 0), (8, ''e08'', 0),
        (9, ''e09'', 0), (10, ''e10'', 0), (11, ''e11'', 0), (12, ''e12'', 0)]"
  by (simp add: example_twelve_def twelve_ids_def store_defs)

lemma example_twelve_unique: "unique_event_ids example_twelve"
proof -
  have "map event_id (table example_twelve) = twelve_ids"
    using arg_cong [OF example_twelve_table, of "map (\<lambda>t. fst (snd t))"]
    by (simp add: comp_def twelve_ids_def)
  then show ?thesis
    by (simp add: unique_event_ids_def twelve_ids_def)
qed

lemma example_twelve_unsent: "map event_id (unsent_rows example_twelve) = twelve_ids"
  by (simp add: example_twelve_def twelve_ids_def store_defs unsent_rows_def)

theorem flush_outbox_twelve_witness:
  "unique_event_ids example_twelve
   \<and> length (unsent_rows example_twelve) = 12
   \<and> reachable example_mongo \<and> (\<forall>d. validator example_mongo d)
   \<and> documents example_mongo = []
   \<and> filter (\<lambda>r. sent r = 0) (table (fst (example_flushes 3))) = []
   \<and> map event_id (table (fst (example_flushes 3))) = twelve_ids
   \<and> map doc_event_id (documents (snd (example_flushes 3))) = twelve_ids
   \<and> length (documents (snd (example_flushes 1))) = 5
   \<and> length (documents (snd (example_flushes 2))) = 10
   \<and> length (documents (snd (example_flushes 3))) = 12"
proof -
  obtain res1 conn1 r1 out1 where
    f1: "flush_outbox mongo_coll 5 example_clock example_twelve example_mongo
           = (res1, conn1, r1, out1)"
    by (metis prod_cases4)
  obtain res2 conn2 r2 out2 where
    f2: "flush_outbox mongo_coll 5 example_clock conn1 r1 = (res2, conn2, r2, out2)"
    by (metis prod_cases4)
  obtain res3 conn3 r3 out3 where
    f3: "flush_outbox mongo_coll 5 example_clock conn2 r2 = (res3, conn3, r3, out3)"
    by (metis prod_cases4)
  have e1: "example_flushes (Suc 0) = (conn1, r1)"
    by (simp add: f1)
  have e2: "example_flushes (Suc (Suc 0)) = (conn2, r2)"
    by (simp only: example_flushes.simps(2) [of "Suc 0"] e1 f2 prod.case)
  have e3: "example_flushes (Suc (Suc (Suc 0))) = (conn3, r3)"
    by (simp only: example_flushes.simps(2) [of "Suc (Suc 0)"] e2 f3 prod.case)
  have n: "(1::nat) = Suc 0" "(2::nat) = Suc (Suc 0)" "(3::nat) = Suc (Suc (Suc 0))"
    by simp_all
  have len: "length (unsent_rows example_twelve) = 12"
    using arg_cong [OF example_twelve_unsent, of length] by (simp add: twelve_ids_def)
  have up: "reachable example_mongo" and ok: "\<forall>d. validator example_mongo d"
    and empty: "documents example_mongo = []"
    by (simp_all add: example_mongo_def)
  have fresh: "set (map doc_event_id (documents example_mongo))
                 \<inter> set (map event_id (unsent_rows example_twelve)) = {}"
    by (simp add: empty)
  have ids: "map event_id (table example_twelve) = twelve_ids"
    using arg_cong [OF example_twelve_table, of "map (\<lambda>t. fst (snd t))"]
    by (simp add: comp_def twelve_ids_def)
  note t = flush_outbox_twelve [OF example_twelve_unique len up ok fresh f1 f2 f3]
  from t have "\<forall>r \<in> set (table conn3). sent r \<noteq> 0"
    by (elim conjE)
  then have sent3: "filter (\<lambda>r. sent r = 0) (table conn3) = []"
    by (simp add: filter_empty_conv)
  from t have ev3: "map event_id (table conn3) = map event_id (table example_twelve)"
    by (elim conjE)
  from t have d3: "map doc_event_id (documents r3)
      = map doc_event_id (documents example_mongo) @ map event_id (unsent_rows example_twelve)"
    by (elim conjE)
  from t have l1: "length (documents r1) = length (documents example_mongo) + 5"
    by (elim conjE)
  from t have l2: "length (documents r2) = length (documents r1) + 5"
    by (elim conjE)
  from t have l3: "length (documents r3) = length (documents r2) + 2"
    by (elim conjE)
  have "map doc_event_id (documents r3) = twelve_ids"
    by (simp add: d3 empty example_twelve_unsent)
  moreover have "map event_id (table conn3) = twelve_ids"
    by (simp add: ev3 ids)
  moreover have "length (documents r1) = 5" "length (documents r2) = 10"
    "length (documents r3) = 12"
    by (simp_all add: l1 l2 l3 empty)
  ultimately show ?thesis
    unfolding n e1 e2 e3 fst_conv snd_conv
    using example_twelve_unique len up ok empty sent3
    by (intro conjI)
qed


end
